theory Spec2Isabelle
  imports Complex_Main "HOL-Library.AList"
begin

section \<open>Strings, errors and the tables of the runtime\<close>

text \<open>
  A Python \<^verbatim>\<open>str\<close> is a sequence of Unicode code points; \<^verbatim>\<open>len\<close> and slicing count
  code points. A string is modelled as the list of its code points, so that every text the
  program can receive (Cyrillic included) is a value of the model.
\<close>

type_synonym pystr = "nat list"

definition str :: "string \<Rightarrow> pystr" where
  "str s = map of_char s"

text \<open>The exceptions the analysis code can raise.\<close>

datatype error = IndexError | KeyError | ZeroDivisionError | OverflowError | TypeError

text \<open>
  \<^verbatim>\<open>str.isspace\<close>, which \<^verbatim>\<open>str.strip()\<close> consults: the white space code points of the
  Unicode database (U+0009..U+000D, U+001C..U+0020, U+0085, U+00A0, U+1680, U+2000..U+200A,
  U+2028, U+2029, U+202F, U+205F, U+3000).
\<close>

definition isspace :: "nat \<Rightarrow> bool" where
  "isspace c =
     ((9 \<le> c \<and> c \<le> 13) \<or> (28 \<le> c \<and> c \<le> 32) \<or> c = 133 \<or> c = 160 \<or> c = 5760 \<or>
      (8192 \<le> c \<and> c \<le> 8202) \<or> c = 8232 \<or> c = 8233 \<or> c = 8239 \<or> c = 8287 \<or> c = 12288)"

text \<open>
  The two large tables of the runtime that the tokenizing line
  \<^verbatim>\<open>re.findall(r'\b\w+\b', text.lower())\<close> consults are parameters of the model:
  \<open>str_lower\<close> is \<^verbatim>\<open>str.lower\<close> (on whole strings: lower-casing can change the length
  and looks at the context of a final sigma), \<open>re_w\<close> is the character class \<^verbatim>\<open>\w\<close>.
\<close>

record runtime =
  str_lower :: "pystr \<Rightarrow> pystr"
  re_w :: "nat \<Rightarrow> bool"

text \<open>
  The tables restricted to ASCII, where they are \<^verbatim>\<open>A-Z\<close> to \<^verbatim>\<open>a-z\<close> and
  \<^verbatim>\<open>[A-Za-z0-9_]\<close>; used to run the model on ASCII texts.
\<close>

definition ascii_lower :: "pystr \<Rightarrow> pystr" where
  "ascii_lower s = map (\<lambda>c. if 65 \<le> c \<and> c \<le> 90 then c + 32 else c) s"

definition ascii_w :: "nat \<Rightarrow> bool" where
  "ascii_w c = ((48 \<le> c \<and> c \<le> 57) \<or> (65 \<le> c \<and> c \<le> 90) \<or> c = 95 \<or> (97 \<le> c \<and> c \<le> 122))"

definition ascii :: runtime where
  "ascii = \<lparr>str_lower = ascii_lower, re_w = ascii_w\<rparr>"

section \<open>Tokenizing\<close>

text \<open>
  \<^verbatim>\<open>re.findall(r'\b\w+\b', s)\<close>: the scan goes left to right; a match starts at a word
  character that follows a non-word character (or the start), \<^verbatim>\<open>\w+\<close> is greedy and runs to
  the next non-word character (or the end), where the closing \<^verbatim>\<open>\b\<close> holds, and the scan
  resumes there. \<open>cur\<close> is the run being read.
\<close>

fun findall_from :: "(nat \<Rightarrow> bool) \<Rightarrow> pystr \<Rightarrow> pystr \<Rightarrow> pystr list" where
  "findall_from w cur [] = (if cur = [] then [] else [cur])"
| "findall_from w cur (c # cs) =
     (if w c then findall_from w (cur @ [c]) cs
      else (if cur = [] then [] else [cur]) @ findall_from w [] cs)"

definition findall_words :: "(nat \<Rightarrow> bool) \<Rightarrow> pystr \<Rightarrow> pystr list" where
  "findall_words w s = findall_from w [] s"

text \<open>\<^verbatim>\<open>words = re.findall(r'\b\w+\b', text.lower())\<close>, the first line of four strategies.\<close>

definition words_of :: "runtime \<Rightarrow> pystr \<Rightarrow> pystr list" where
  "words_of rt text = findall_words (re_w rt) (str_lower rt text)"

section \<open>SentenceCountStrategy\<close>

text \<open>The character class \<^verbatim>\<open>[.!?]\<close>.\<close>

definition is_delim :: "nat \<Rightarrow> bool" where
  "is_delim c = (c = 46 \<or> c = 33 \<or> c = 63)"

text \<open>
  \<^verbatim>\<open>re.split(r'[.!?]', text)\<close>: every delimiter ends the piece being read (empty pieces
  included), and the rest of the text after the last delimiter is the last piece.
\<close>

fun split_from :: "pystr \<Rightarrow> pystr \<Rightarrow> pystr list" where
  "split_from cur [] = [cur]"
| "split_from cur (c # cs) =
     (if is_delim c then cur # split_from [] cs else split_from (cur @ [c]) cs)"

definition re_split :: "pystr \<Rightarrow> pystr list" where
  "re_split text = split_from [] text"

text \<open>\<^verbatim>\<open>s.strip()\<close>: white space removed at both ends.\<close>

definition strip :: "pystr \<Rightarrow> pystr" where
  "strip s = rev (dropWhile isspace (rev (dropWhile isspace s)))"

text \<open>
  \<^verbatim>\<open>
  sentences = re.split(r'[.!?]', text)
  return len([s for s in sentences if s.strip()])
  \<close>
  A string is true when it is not empty.
\<close>

definition SentenceCount_analyze :: "pystr \<Rightarrow> nat" where
  "SentenceCount_analyze text = length (filter (\<lambda>s. strip s \<noteq> []) (re_split text))"

section \<open>Counter and the frequency strategies\<close>

text \<open>
  A \<^verbatim>\<open>dict\<close> keeps its keys in the order of their first insertion: it is an association
  list with distinct keys; \<^verbatim>\<open>d[k] = v\<close> is \<open>AList.update k v d\<close> (the value replaced in place,
  or the pair appended) and a lookup is \<open>map_of d k\<close>.

  \<^verbatim>\<open>Counter(words)\<close> counts the elements in order:
  \<^verbatim>\<open>for elem in iterable: mapping[elem] = mapping.get(elem, 0) + 1\<close>.
\<close>

fun count_elements :: "(pystr \<times> nat) list \<Rightarrow> pystr list \<Rightarrow> (pystr \<times> nat) list" where
  "count_elements mapping [] = mapping"
| "count_elements mapping (elem # rest) =
     count_elements
       (AList.update elem ((case map_of mapping elem of None \<Rightarrow> 0 | Some n \<Rightarrow> n) + 1) mapping) rest"

definition Counter :: "pystr list \<Rightarrow> (pystr \<times> nat) list" where
  "Counter iterable = count_elements [] iterable"

text \<open>
  \<^verbatim>\<open>
  words = re.findall(r'\b\w+\b', text.lower())
  freq = Counter(words)
  return freq
  \<close>
\<close>

definition AbsoluteFrequency_analyze :: "runtime \<Rightarrow> pystr \<Rightarrow> (pystr \<times> nat) list" where
  "AbsoluteFrequency_analyze rt text = (let words = words_of rt text; freq = Counter words in freq)"

subsection \<open>Floats\<close>

text \<open>
  A Python \<^verbatim>\<open>float\<close> is an IEEE 754 double: 53 significant bits, exponents of normal
  numbers from -1022, results rounded to the nearest double, ties to the even one. A
  finite double is modelled by its exact value, a rational number.

  \<open>bit_length\<close> is \<^verbatim>\<open>int.bit_length\<close>; \<open>floor_log2 x\<close> is the exponent \<open>e\<close> of a positive
  \<open>x\<close>, with \<open>2 ^ e \<le> x < 2 ^ (e + 1)\<close>.
\<close>

fun bit_length :: "nat \<Rightarrow> nat" where
  "bit_length n = (if n = 0 then 0 else Suc (bit_length (n div 2)))"

declare bit_length.simps [simp del]

definition floor_log2 :: "rat \<Rightarrow> int" where
  "floor_log2 x =
     (if 1 \<le> x then int (bit_length (nat \<lfloor>x\<rfloor>)) - 1
      else - int (bit_length (nat (\<lceil>1 / x\<rceil> - 1))))"

definition round_half_even :: "rat \<Rightarrow> int" where
  "round_half_even y =
     (let f = \<lfloor>y\<rfloor>; r = y - of_int f
      in if r < 1 / 2 then f else if 1 / 2 < r then f + 1 else if even f then f else f + 1)"

text \<open>
  The double nearest to \<open>x\<close>: \<open>x\<close> is rounded to a multiple of the distance \<open>ulp\<close> between
  the doubles around it, \<open>2 ^ (e - 52)\<close> for a normal number and \<open>2 ^ (-1074)\<close> below the
  normal numbers.
\<close>

definition round_double :: "rat \<Rightarrow> rat" where
  "round_double x =
     (if x = 0 then 0
      else let ulp = power_int 2 (max (floor_log2 \<bar>x\<bar>) (- 1022) - 52)
           in sgn x * of_int (round_half_even (\<bar>x\<bar> / ulp)) * ulp)"

text \<open>The largest double, \<^verbatim>\<open>sys.float_info.max\<close>.\<close>

definition max_double :: rat where
  "max_double = (2 ^ 53 - 1) * 2 ^ 971"

text \<open>
  \<^verbatim>\<open>count / total_words\<close> on two ints is true division: it raises
  \<^verbatim>\<open>ZeroDivisionError\<close> when the divisor is 0, gives the double nearest to the exact
  quotient, and raises \<^verbatim>\<open>OverflowError\<close> when that is beyond the doubles.
\<close>

definition truediv :: "nat \<Rightarrow> nat \<Rightarrow> error + rat" where
  "truediv a b =
     (if b = 0 then Inl ZeroDivisionError
      else let q = round_double (of_nat a / of_nat b)
           in if max_double < q then Inl OverflowError else Inr q)"

text \<open>
  \<^verbatim>\<open>x * 100\<close> on a float and an int: the int becomes the double of its value, and the
  product is rounded to the nearest double. A product beyond the largest double would be
  an infinity, which the model does not have; the products here are those of a quotient
  that is at most 1 and of 100.
\<close>

definition float_mul :: "rat \<Rightarrow> rat \<Rightarrow> rat" where
  "float_mul x y = round_double (x * y)"

text \<open>
  The comprehension
  \<^verbatim>\<open>{word: (count / total_words) * 100 for word, count in freq.items()}\<close>:
  one store per item of \<open>freq\<close>, in order; \<open>d\<close> is the dict being built.
\<close>

fun rel_freq_items ::
  "nat \<Rightarrow> (pystr \<times> rat) list \<Rightarrow> (pystr \<times> nat) list \<Rightarrow> error + (pystr \<times> rat) list" where
  "rel_freq_items total_words d [] = Inr d"
| "rel_freq_items total_words d ((word, count) # items) =
     (case truediv count total_words of
        Inl e \<Rightarrow> Inl e
      | Inr q \<Rightarrow> rel_freq_items total_words (AList.update word (float_mul q 100) d) items)"

text \<open>
  \<^verbatim>\<open>
  words = re.findall(r'\b\w+\b', text.lower())
  total_words = len(words)
  freq = Counter(words)
  rel_freq = {word: (count / total_words) * 100 for word, count in freq.items()}
  return rel_freq
  \<close>
\<close>

definition RelativeFrequency_analyze :: "runtime \<Rightarrow> pystr \<Rightarrow> error + (pystr \<times> rat) list" where
  "RelativeFrequency_analyze rt text =
     (let words = words_of rt text;
          total_words = length words;
          freq = Counter words
      in rel_freq_items total_words [] freq)"

section \<open>UniqueWordsCountStrategy\<close>

text \<open>
  \<^verbatim>\<open>
  words = re.findall(r'\b\w+\b', text.lower())
  unique_words = set(words)
  return len(unique_words)
  \<close>
\<close>

definition UniqueWordsCount_analyze :: "runtime \<Rightarrow> pystr \<Rightarrow> nat" where
  "UniqueWordsCount_analyze rt text =
     (let words = words_of rt text; unique_words = set words in card unique_words)"

section \<open>InflectionHighlightStrategy\<close>

text \<open>
  \<^verbatim>\<open>self.morph\<close> is a \<^verbatim>\<open>pymorphy2.MorphAnalyzer\<close>, a library outside the repository:
  it is a parameter of the model. \<^verbatim>\<open>parse\<close> gives a word its list of parses, best first;
  of a parse the code reads the field \<^verbatim>\<open>normal_form\<close> only.
\<close>

record Parse =
  normal_form :: pystr

type_synonym MorphAnalyzer = "pystr \<Rightarrow> Parse list"

text \<open>
  \<^verbatim>\<open>self.morph.parse(word)[0].normal_form\<close>: the index raises \<^verbatim>\<open>IndexError\<close> on an
  empty list of parses.
\<close>

definition first_normal_form :: "MorphAnalyzer \<Rightarrow> pystr \<Rightarrow> error + pystr" where
  "first_normal_form parse word =
     (case parse word of [] \<Rightarrow> Inl IndexError | p # _ \<Rightarrow> Inr (normal_form p))"

text \<open>
  The inner loop, over the tokens of the text:
  \<^verbatim>\<open>
  for w in words:
      if self.morph.parse(w)[0].normal_form == lemma:
          inflection = w[len(lemma):]
          inflections[lemma].append(inflection)
  \<close>
  The slice \<^verbatim>\<open>w[len(lemma):]\<close> is \<open>drop (length lemma) w\<close>: a slice never raises, and past
  the end of \<open>w\<close> it is the empty string. \<^verbatim>\<open>inflections[lemma]\<close> raises
  \<^verbatim>\<open>KeyError\<close> on a missing key.
\<close>

fun scan_words ::
  "MorphAnalyzer \<Rightarrow> pystr \<Rightarrow> (pystr \<times> pystr list) list \<Rightarrow> pystr list \<Rightarrow>
     error + (pystr \<times> pystr list) list" where
  "scan_words parse lemma inflections [] = Inr inflections"
| "scan_words parse lemma inflections (w # words) =
     (case first_normal_form parse w of
        Inl e \<Rightarrow> Inl e
      | Inr nf \<Rightarrow>
          if nf = lemma then
            (let inflection = drop (length lemma) w in
               case map_of inflections lemma of
                 None \<Rightarrow> Inl KeyError
               | Some found \<Rightarrow>
                   scan_words parse lemma (AList.update lemma (found @ [inflection]) inflections) words)
          else scan_words parse lemma inflections words)"

text \<open>
  The outer loop, over the selected words:
  \<^verbatim>\<open>
  for word in selected_words:
      lemma = self.morph.parse(word)[0].normal_form
      inflections[lemma] = []
      for w in words: ...
  \<close>
\<close>

fun each_selected ::
  "MorphAnalyzer \<Rightarrow> pystr list \<Rightarrow> (pystr \<times> pystr list) list \<Rightarrow> pystr list \<Rightarrow>
     error + (pystr \<times> pystr list) list" where
  "each_selected parse words inflections [] = Inr inflections"
| "each_selected parse words inflections (word # selected_words) =
     (case first_normal_form parse word of
        Inl e \<Rightarrow> Inl e
      | Inr lemma \<Rightarrow>
          (case scan_words parse lemma (AList.update lemma [] inflections) words of
             Inl e \<Rightarrow> Inl e
           | Inr inflections' \<Rightarrow> each_selected parse words inflections' selected_words))"

text \<open>
  \<^verbatim>\<open>
  def analyze(self, text, selected_words):
      inflections = {}
      words = re.findall(r'\b\w+\b', text.lower())
      for word in selected_words: ...
      return inflections
  \<close>
\<close>

definition InflectionHighlight_analyze ::
  "runtime \<Rightarrow> MorphAnalyzer \<Rightarrow> pystr \<Rightarrow> pystr list \<Rightarrow> error + (pystr \<times> pystr list) list" where
  "InflectionHighlight_analyze rt parse text selected_words =
     (let inflections = []; words = words_of rt text
      in each_selected parse words inflections selected_words)"

section \<open>The strategies and TextAnalyzer\<close>

text \<open>
  The strategy classes; an \<^verbatim>\<open>InflectionHighlightStrategy\<close> holds its analyzer
  (\<^verbatim>\<open>self.morph\<close>). The base class's \<^verbatim>\<open>analyze\<close> is \<^verbatim>\<open>pass\<close>: it returns
  \<^verbatim>\<open>None\<close>.
\<close>

datatype strategy =
    TextAnalysisStrategy
  | AbsoluteFrequencyStrategy
  | RelativeFrequencyStrategy
  | SentenceCountStrategy
  | InflectionHighlightStrategy MorphAnalyzer
  | UniqueWordsCountStrategy

datatype result =
    PyNone
  | Freq "(pystr \<times> nat) list"
  | RelFreq "(pystr \<times> rat) list"
  | PyInt nat
  | Inflections "(pystr \<times> pystr list) list"

text \<open>
  \<^verbatim>\<open>strategy.analyze(text, *args)\<close>: the call binds the extra positional arguments to the
  parameters of the method and raises \<^verbatim>\<open>TypeError\<close> when their number is wrong (one,
  \<^verbatim>\<open>selected_words\<close>, for the inflection strategy, none for the others).
\<close>

fun strategy_analyze :: "runtime \<Rightarrow> strategy \<Rightarrow> pystr \<Rightarrow> pystr list list \<Rightarrow> error + result" where
  "strategy_analyze rt TextAnalysisStrategy text args =
     (if args = [] then Inr PyNone else Inl TypeError)"
| "strategy_analyze rt AbsoluteFrequencyStrategy text args =
     (if args = [] then Inr (Freq (AbsoluteFrequency_analyze rt text)) else Inl TypeError)"
| "strategy_analyze rt RelativeFrequencyStrategy text args =
     (if args = [] then map_sum id RelFreq (RelativeFrequency_analyze rt text) else Inl TypeError)"
| "strategy_analyze rt SentenceCountStrategy text args =
     (if args = [] then Inr (PyInt (SentenceCount_analyze text)) else Inl TypeError)"
| "strategy_analyze rt (InflectionHighlightStrategy parse) text args =
     (case args of
        [selected_words] \<Rightarrow>
          map_sum id Inflections (InflectionHighlight_analyze rt parse text selected_words)
      | _ \<Rightarrow> Inl TypeError)"
| "strategy_analyze rt UniqueWordsCountStrategy text args =
     (if args = [] then Inr (PyInt (UniqueWordsCount_analyze rt text)) else Inl TypeError)"

text \<open>
  \<^verbatim>\<open>
  class TextAnalyzer:
      def __init__(self, strategy): self._strategy = strategy
      def set_strategy(self, strategy): self._strategy = strategy
      def analyze(self, text, *args): return self._strategy.analyze(text, *args)
  \<close>
  The field \<^verbatim>\<open>_strategy\<close> is \<open>current_strategy\<close> (a name cannot start with an underscore).
\<close>

record TextAnalyzer =
  current_strategy :: strategy

definition TextAnalyzer_init :: "strategy \<Rightarrow> TextAnalyzer" where
  "TextAnalyzer_init strategy = \<lparr>current_strategy = strategy\<rparr>"

definition set_strategy :: "TextAnalyzer \<Rightarrow> strategy \<Rightarrow> TextAnalyzer" where
  "set_strategy self strategy = self\<lparr>current_strategy := strategy\<rparr>"

definition TextAnalyzer_analyze ::
  "runtime \<Rightarrow> TextAnalyzer \<Rightarrow> pystr \<Rightarrow> pystr list list \<Rightarrow> error + result" where
  "TextAnalyzer_analyze rt self text args = strategy_analyze rt (current_strategy self) text args"


text \<open>
  A small analyzer to run the model on: four forms of \<^verbatim>\<open>run\<close> have the normal form
  \<^verbatim>\<open>run\<close>, \<^verbatim>\<open>mouse\<close> and \<^verbatim>\<open>mice\<close> the normal form \<^verbatim>\<open>mouse\<close>, and every other
  word is its own normal form (upper case kept).
\<close>

definition toy_parse :: MorphAnalyzer where
  "toy_parse word =
     (if word \<in> {str ''run'', str ''runs'', str ''ran'', str ''running''}
        then [\<lparr>normal_form = str ''run''\<rparr>]
      else if word \<in> {str ''mouse'', str ''mice''}
        then [\<lparr>normal_form = str ''mouse''\<rparr>]
      else [\<lparr>normal_form = word\<rparr>])"


section \<open>Properties of the sentence count\<close>

lemma all_dropWhile: "(\<forall>x \<in> set (dropWhile P s). P x) \<longleftrightarrow> (\<forall>x \<in> set s. P x)"
  by (induction s) auto

lemma strip_empty_iff: "strip s = [] \<longleftrightarrow> (\<forall>c \<in> set s. isspace c)"
  by (simp add: strip_def all_dropWhile)

lemma split_from_no_delim: "\<forall>c \<in> set s. \<not> is_delim c \<Longrightarrow> split_from cur s = [cur @ s]"
  by (induction s arbitrary: cur) auto

lemma split_from_delim:
  "is_delim d \<Longrightarrow> split_from cur (a @ d # b) = split_from cur a @ split_from [] b"
  by (induction a arbitrary: cur) auto

lemma strip_Nil: "strip [] = []"
  by (simp add: strip_def)

lemma SentenceCount_delim:
  "is_delim d \<Longrightarrow>
     SentenceCount_analyze (a @ d # b) = SentenceCount_analyze a + SentenceCount_analyze b"
  by (simp add: SentenceCount_analyze_def re_split_def split_from_delim)

lemma SentenceCount_one_delim: "is_delim e \<Longrightarrow> SentenceCount_analyze (e # b) = SentenceCount_analyze b"
  by (simp add: SentenceCount_analyze_def re_split_def strip_Nil)

lemmas sc_eval = SentenceCount_analyze_def re_split_def str_def is_delim_def strip_def isspace_def

text \<open>
  Claim C7. The sentence count splits the text at every \<^verbatim>\<open>.\<close>, \<^verbatim>\<open>!\<close> and \<^verbatim>\<open>?\<close> (a text
  without delimiter is one piece, and a delimiter cuts the text into the pieces before it
  and the pieces after it), trims each piece (what is left is non-empty exactly when the
  piece holds a character that is not white space) and counts the pieces that are not
  empty then. A delimiter right after a delimiter adds nothing to the count, and the
  counts of the empty text, of \<^verbatim>\<open>Hello.\<close>, of \<^verbatim>\<open>Hello. World! How?\<close> and of
  \<^verbatim>\<open>Hello...\<close> are 0, 1, 3 and 1.
\<close>

theorem SentenceCount_counts_nonblank_pieces:
  "(is_delim c \<longleftrightarrow> c \<in> set (str ''.!?'')) \<and>
   ((\<forall>c \<in> set s. \<not> is_delim c) \<longrightarrow> re_split s = [s]) \<and>
   (is_delim d \<longrightarrow> re_split (a @ d # b) = re_split a @ re_split b) \<and>
   (strip p \<noteq> [] \<longleftrightarrow> (\<exists>c \<in> set p. \<not> isspace c)) \<and>
   SentenceCount_analyze text = length (filter (\<lambda>p. strip p \<noteq> []) (re_split text)) \<and>
   (is_delim d \<and> is_delim e \<longrightarrow>
      SentenceCount_analyze (a @ d # e # b) = SentenceCount_analyze (a @ d # b)) \<and>
   SentenceCount_analyze (str []) = 0 \<and>
   SentenceCount_analyze (str ''Hello.'') = 1 \<and>
   SentenceCount_analyze (str ''Hello. World! How?'') = 3 \<and>
   SentenceCount_analyze (str ''Hello...'') = 1"
proof -
  have delims: "is_delim c \<longleftrightarrow> c \<in> set (str ''.!?'')"
    by (auto simp: is_delim_def str_def)
  have one: "(\<forall>c \<in> set s. \<not> is_delim c) \<longrightarrow> re_split s = [s]"
    by (simp add: re_split_def split_from_no_delim)
  have cut: "is_delim d \<longrightarrow> re_split (a @ d # b) = re_split a @ re_split b"
    by (simp add: re_split_def split_from_delim)
  have trim: "strip p \<noteq> [] \<longleftrightarrow> (\<exists>c \<in> set p. \<not> isspace c)"
    by (simp add: strip_empty_iff)
  have count: "SentenceCount_analyze text = length (filter (\<lambda>p. strip p \<noteq> []) (re_split text))"
    by (simp add: SentenceCount_analyze_def)
  have twice: "is_delim d \<and> is_delim e \<longrightarrow>
      SentenceCount_analyze (a @ d # e # b) = SentenceCount_analyze (a @ d # b)"
    by (simp add: SentenceCount_delim SentenceCount_one_delim)
  have e0: "SentenceCount_analyze (str []) = 0" by (simp add: sc_eval)
  have e1: "SentenceCount_analyze (str ''Hello.'') = 1" by (simp add: sc_eval)
  have e2: "SentenceCount_analyze (str ''Hello. World! How?'') = 3" by (simp add: sc_eval)
  have e3: "SentenceCount_analyze (str ''Hello...'') = 1" by (simp add: sc_eval)
  from delims one cut trim count twice e0 e1 e2 e3 show ?thesis by blast
qed

theorem SentenceCount_counts_nonblank_pieces_witness:
  "is_delim 33 \<and> is_delim 63 \<and>
   re_split (str ''Hi'') = [str ''Hi''] \<and>
   re_split (str ''Hi!? yo'') = [str ''Hi'', [], str '' yo''] \<and>
   strip (str '' yo'') = str ''yo'' \<and>
   SentenceCount_analyze (str ''Hi!? yo'') = 2 \<and>
   SentenceCount_analyze (str ''Hi! yo'') = 2"
  using SentenceCount_counts_nonblank_pieces
    [of 33 "str ''Hi''" 33 "str ''Hi''" "str '' yo''" "str '' yo''" "str ''Hi!? yo''" 63]
  by (simp add: sc_eval)

section \<open>Properties of the rounding to a double\<close>

lemma bit_length_upper: "n < 2 ^ bit_length n"
proof (induction n rule: bit_length.induct)
  case (1 n)
  show ?case
  proof (cases "n = 0")
    case True
    then show ?thesis by (simp add: bit_length.simps)
  next
    case False
    with 1 have "n div 2 < 2 ^ bit_length (n div 2)" by simp
    then have "n < 2 * 2 ^ bit_length (n div 2)" by linarith
    with False show ?thesis by (subst bit_length.simps) simp
  qed
qed

lemma bit_length_lower: "0 < n \<Longrightarrow> 2 ^ (bit_length n - 1) \<le> n"
proof (induction n rule: bit_length.induct)
  case (1 n)
  then have pos: "n \<noteq> 0" by simp
  show ?case
  proof (cases "n div 2 = 0")
    case True
    with pos show ?thesis by (simp add: bit_length.simps [of n] bit_length.simps [of 0])
  next
    case False
    with 1 pos have ih: "2 ^ (bit_length (n div 2) - 1) \<le> n div 2" by simp
    from False have "bit_length (n div 2) \<noteq> 0" by (simp add: bit_length.simps [of "n div 2"])
    then have "(2::nat) ^ bit_length (n div 2) = 2 * 2 ^ (bit_length (n div 2) - 1)"
      by (cases "bit_length (n div 2)") simp_all
    with ih have "2 ^ bit_length (n div 2) \<le> n" by linarith
    with pos show ?thesis by (simp add: bit_length.simps [of n])
  qed
qed

lemma floor_log2_le:
  assumes "0 < x"
  shows "power_int 2 (floor_log2 x) \<le> x"
proof (cases "1 \<le> x")
  case True
  let ?n = "nat \<lfloor>x\<rfloor>"
  from True have n: "0 < ?n" by simp
  then have "bit_length ?n \<noteq> 0" by (simp add: bit_length.simps [of ?n])
  then have e: "floor_log2 x = int (bit_length ?n - 1)"
    using True by (simp add: floor_log2_def)
  from bit_length_lower [OF n] have "(of_nat (2 ^ (bit_length ?n - 1)) :: rat) \<le> of_nat ?n"
    by (simp only: of_nat_le_iff)
  also from True have "(of_nat ?n :: rat) = of_int \<lfloor>x\<rfloor>" by simp
  also have "\<dots> \<le> x" by simp
  finally show ?thesis by (simp add: e)
next
  case False
  define c where "c = \<lceil>1 / x\<rceil>"
  let ?n = "nat (c - 1)"
  from False have e: "floor_log2 x = - int (bit_length ?n)"
    by (simp add: floor_log2_def c_def)
  from False have "x < 1" by simp
  with assms have "1 < 1 / x" by (simp add: field_simps)
  then have "(1::rat) < of_int c"
    unfolding c_def using le_of_int_ceiling [of "1 / x"] by linarith
  then have "1 < c" by (simp only: of_int_1_less_iff)
  then have "c = int ?n + 1" by simp
  moreover have "Suc ?n \<le> 2 ^ bit_length ?n"
    by (rule Suc_leI) (rule bit_length_upper)
  then have "int (Suc ?n) \<le> int (2 ^ bit_length ?n)"
    by (simp only: of_nat_le_iff)
  then have "int ?n + 1 \<le> 2 ^ bit_length ?n" by simp
  ultimately have "c \<le> 2 ^ bit_length ?n" by simp
  then have "(of_int c :: rat) \<le> of_int (2 ^ bit_length ?n)"
    by (simp only: of_int_le_iff)
  moreover have "1 / x \<le> of_int c"
    unfolding c_def by (rule le_of_int_ceiling)
  ultimately have "1 / x \<le> of_int (2 ^ bit_length ?n)"
    by (rule order_trans [rotated])
  then have "1 / x \<le> 2 ^ bit_length ?n"
    by simp
  with assms have "1 / 2 ^ bit_length ?n \<le> x"
    by (simp add: field_simps)
  then show ?thesis
    by (simp add: e power_int_minus_divide)
qed

lemma round_half_even_error: "\<bar>of_int (round_half_even y) - y\<bar> \<le> 1 / 2"
proof -
  have "of_int \<lfloor>y\<rfloor> \<le> y" and "y < of_int \<lfloor>y\<rfloor> + 1"
    by linarith+
  then show ?thesis
    by (auto simp: round_half_even_def Let_def abs_le_iff)
qed

lemma round_double_error:
  assumes "power_int 2 (- 1022) \<le> x"
  shows "\<bar>round_double x - x\<bar> \<le> x / 2 ^ 53"
proof -
  have "(0::rat) < power_int 2 (- 1022)" by (rule zero_less_power_int) simp
  with assms have pos: "0 < x" by linarith
  define e where "e = max (floor_log2 x) (- 1022)"
  define ulp :: rat where "ulp = power_int 2 (e - 52)"
  have ulp_pos: "0 < ulp" unfolding ulp_def by (rule zero_less_power_int) simp
  have "power_int 2 e \<le> x"
    using floor_log2_le [OF pos] assms by (simp add: e_def max_def)
  moreover have "(power_int 2 e :: rat) = ulp * 2 ^ 52"
    unfolding ulp_def by (simp add: power_int_diff)
  ultimately have small: "ulp * 2 ^ 52 \<le> x" by simp
  from pos have fl: "round_double x = of_int (round_half_even (x / ulp)) * ulp"
    by (simp add: round_double_def Let_def ulp_def e_def)
  have "round_double x - x = (of_int (round_half_even (x / ulp)) - x / ulp) * ulp"
    using ulp_pos by (simp add: fl left_diff_distrib)
  then have "\<bar>round_double x - x\<bar> = \<bar>of_int (round_half_even (x / ulp)) - x / ulp\<bar> * ulp"
    using ulp_pos by (simp only: abs_mult abs_of_pos)
  also have "\<dots> \<le> 1 / 2 * ulp"
    using round_half_even_error [of "x / ulp"] ulp_pos by (intro mult_right_mono) simp_all
  also have "\<dots> \<le> x / 2 ^ 53"
    using small by simp
  finally show ?thesis .
qed

section \<open>Properties of the frequency tables\<close>

lemma update_bump_sum:
  "sum_list (map snd (AList.update k ((case map_of m k of None \<Rightarrow> 0 | Some n \<Rightarrow> n) + 1) m)) =
     Suc (sum_list (map snd m))"
  by (induction m) auto

lemma count_elements_sum:
  "sum_list (map snd (count_elements m es)) = sum_list (map snd m) + length es"
proof (induction es arbitrary: m)
  case Nil
  show ?case by simp
next
  case (Cons e es)
  show ?case
    by (simp only: count_elements.simps Cons.IH update_bump_sum) simp
qed

lemma count_elements_distinct:
  "distinct (map fst m) \<Longrightarrow> distinct (map fst (count_elements m es))"
  by (induction es arbitrary: m) (simp_all add: distinct_update)

lemma Counter_distinct: "distinct (map fst (Counter ws))"
  by (simp add: Counter_def count_elements_distinct)

lemma Counter_sum: "sum_list (map snd (Counter ws)) = length ws"
  by (simp add: Counter_def count_elements_sum)

lemma update_absent: "k \<notin> fst ` set d \<Longrightarrow> AList.update k v d = d @ [(k, v)]"
  by (induction d) auto

lemmas tok_eval = words_of_def findall_words_def ascii_def ascii_lower_def ascii_w_def str_def

text \<open>
  Claim C5. For every text, the counts of the table that the absolute frequency strategy
  returns add up to the number of tokens of the text.
\<close>

theorem AbsoluteFrequency_counts_sum_to_tokens:
  "sum_list (map snd (AbsoluteFrequency_analyze rt text)) = length (words_of rt text)"
  by (simp add: AbsoluteFrequency_analyze_def Counter_sum)

theorem AbsoluteFrequency_counts_sum_to_tokens_witness:
  "AbsoluteFrequency_analyze ascii (str ''the cat sat on the mat'') =
     [(str ''the'', 2), (str ''cat'', 1), (str ''sat'', 1), (str ''on'', 1), (str ''mat'', 1)] \<and>
   sum_list (map snd (AbsoluteFrequency_analyze ascii (str ''the cat sat on the mat''))) = 6 \<and>
   length (words_of ascii (str ''the cat sat on the mat'')) = 6"
  using AbsoluteFrequency_counts_sum_to_tokens [of ascii "str ''the cat sat on the mat''"]
  by (simp add: tok_eval AbsoluteFrequency_analyze_def Counter_def)

text \<open>
  Claim C2. For every text without a token, the relative frequency strategy returns the
  empty table and no error: the table of counts is empty, so the comprehension makes no
  division.
\<close>

theorem RelativeFrequency_no_tokens:
  assumes "words_of rt text = []"
  shows "RelativeFrequency_analyze rt text = Inr []"
  using assms by (simp add: RelativeFrequency_analyze_def Counter_def)

theorem RelativeFrequency_no_tokens_witness:
  "words_of ascii (str ''... !'') = [] \<and> RelativeFrequency_analyze ascii (str ''... !'') = Inr []"
proof -
  have none: "words_of ascii (str ''... !'') = []"
    by (simp add: tok_eval)
  from none RelativeFrequency_no_tokens [OF none] show ?thesis
    by blast
qed

section \<open>Properties of the inflection groups\<close>

lemma first_normal_form_ok: "parse w \<noteq> [] \<Longrightarrow> \<exists>nf. first_normal_form parse w = Inr nf"
  by (cases "parse w") (simp_all add: first_normal_form_def)

lemma scan_words_closed:
  "\<forall>w \<in> set ws. parse w \<noteq> [] \<Longrightarrow> map_of d L = Some found \<Longrightarrow>
     scan_words parse L d ws =
       Inr (AList.update L
         (found @ map (drop (length L)) (filter (\<lambda>w. first_normal_form parse w = Inr L) ws)) d)"
proof (induction ws arbitrary: d found)
  case Nil
  then show ?case by (simp add: update_triv)
next
  case (Cons w ws)
  from Cons.prems(1) obtain nf where nf: "first_normal_form parse w = Inr nf"
    using first_normal_form_ok [of parse w] by auto
  from Cons.prems(1) have rest: "\<forall>w \<in> set ws. parse w \<noteq> []" by simp
  show ?case
  proof (cases "nf = L")
    case True
    let ?d = "AList.update L (found @ [drop (length L) w]) d"
    have "map_of ?d L = Some (found @ [drop (length L) w])"
      by (simp add: update_conv')
    from Cons.IH [OF rest this] nf True Cons.prems(2) show ?thesis
      by simp
  next
    case False
    with Cons.IH [OF rest Cons.prems(2)] nf show ?thesis
      by simp
  qed
qed

lemma each_selected_closed:
  "\<forall>w \<in> set ws. parse w \<noteq> [] \<Longrightarrow> map (first_normal_form parse) seeds = map Inr lems \<Longrightarrow>
     each_selected parse ws d seeds =
       Inr (fold (\<lambda>L. AList.update L
              (map (drop (length L)) (filter (\<lambda>w. first_normal_form parse w = Inr L) ws))) lems d)"
proof (induction seeds arbitrary: d lems)
  case Nil
  then show ?case by simp
next
  case (Cons s seeds)
  from Cons.prems(2) obtain L rest where lems: "lems = L # rest"
    and L: "first_normal_form parse s = Inr L"
    and rest: "map (first_normal_form parse) seeds = map Inr rest"
    by (cases lems) auto
  have "map_of (AList.update L [] d) L = Some []"
    by (simp add: update_conv')
  from scan_words_closed [OF Cons.prems(1) this]
  have "scan_words parse L (AList.update L [] d) ws =
      Inr (AList.update L
        (map (drop (length L)) (filter (\<lambda>w. first_normal_form parse w = Inr L) ws)) d)"
    by simp
  with Cons.IH [OF Cons.prems(1) rest] L lems show ?case
    by simp
qed

lemma update_tabulate:
  "AList.update x (f x) (map (\<lambda>k. (k, f k)) ks) =
     map (\<lambda>k. (k, f k)) (if x \<in> set ks then ks else ks @ [x])"
  by (induction ks) auto

lemma fold_update_tabulate:
  "fold (\<lambda>L. AList.update L (f L)) ls [] = map (\<lambda>k. (k, f k)) (rev (remdups (rev ls)))"
proof (induction ls rule: rev_induct)
  case Nil
  show ?case by simp
next
  case (snoc x ls)
  then show ?case
    by (simp add: update_tabulate)
qed

lemma fold_update_other:
  "L \<notin> set ls \<Longrightarrow> map_of (fold (\<lambda>L. AList.update L (f L)) ls d) L = map_of d L"
  by (induction ls arbitrary: d) (simp_all add: update_conv')

lemma each_selected_append:
  "each_selected parse ws d (a @ b) =
     (case each_selected parse ws d a of Inl e \<Rightarrow> Inl e | Inr d' \<Rightarrow> each_selected parse ws d' b)"
  by (induction a arbitrary: d) (simp_all split: sum.splits)


lemma tabulate_one_entry:
  "distinct ks \<Longrightarrow>
     length (filter (\<lambda>kv. fst kv = L) (map (\<lambda>k. (k, f k)) ks)) = (if L \<in> set ks then 1 else 0)"
  by (induction ks) (auto simp: filter_map comp_def)

lemma map_of_tabulate:
  "map_of (map (\<lambda>k. (k, f k)) ks) L = (if L \<in> set ks then Some (f L) else None)"
  by (induction ks) auto

lemma inflection_groups_closed:
  "\<forall>w \<in> set (words_of rt text). parse w \<noteq> [] \<Longrightarrow>
   map (first_normal_form parse) selected_words = map Inr lems \<Longrightarrow>
   InflectionHighlight_analyze rt parse text selected_words =
     Inr (map (\<lambda>L. (L, map (drop (length L))
                         (filter (\<lambda>w. first_normal_form parse w = Inr L) (words_of rt text))))
            (rev (remdups (rev lems))))"
  using each_selected_closed [of "words_of rt text" parse selected_words lems "[]"]
  by (simp add: InflectionHighlight_analyze_def fold_update_tabulate)

lemmas infl_eval = tok_eval InflectionHighlight_analyze_def first_normal_form_def toy_parse_def

text \<open>
  Claim C1. For every text and every sequence of seed words (the analyzer giving each
  token at least one parse, and the seed words the normal forms \<open>lems\<close>), the inflection
  strategy returns the dict that has, for each lemma of a seed word, in the order of the
  lemmas' first seeds, the residual suffixes (the token without its first
  \<open>length lemma\<close> characters) of exactly the tokens whose lemma is that lemma, in the order
  of the text; a token with another lemma adds nothing to the group.
\<close>

theorem InflectionHighlight_groups:
  assumes "\<forall>w \<in> set (words_of rt text). parse w \<noteq> []"
    and "map (first_normal_form parse) selected_words = map Inr lems"
  shows "InflectionHighlight_analyze rt parse text selected_words =
     Inr (map (\<lambda>L. (L, map (drop (length L))
                         (filter (\<lambda>w. first_normal_form parse w = Inr L) (words_of rt text))))
            (rev (remdups (rev lems))))"
  by (rule inflection_groups_closed [OF assms])

theorem InflectionHighlight_groups_witness:
  "words_of ascii (str ''he runs and ran and running'') =
     [str ''he'', str ''runs'', str ''and'', str ''ran'', str ''and'', str ''running''] \<and>
   map (first_normal_form toy_parse) [str ''run''] = map Inr [str ''run''] \<and>
   InflectionHighlight_analyze ascii toy_parse (str ''he runs and ran and running'') [str ''run''] =
     Inr [(str ''run'', [str ''s'', str [], str ''ning''])]"
proof -
  have tokens: "words_of ascii (str ''he runs and ran and running'') =
     [str ''he'', str ''runs'', str ''and'', str ''ran'', str ''and'', str ''running'']"
    by (simp add: tok_eval)
  have parses: "\<forall>w \<in> set (words_of ascii (str ''he runs and ran and running'')). toy_parse w \<noteq> []"
    by (simp add: toy_parse_def)
  have seeds: "map (first_normal_form toy_parse) [str ''run''] = map Inr [str ''run'']"
    by (simp add: first_normal_form_def toy_parse_def)
  have "InflectionHighlight_analyze ascii toy_parse (str ''he runs and ran and running'') [str ''run''] =
     Inr [(str ''run'', [str ''s'', str [], str ''ning''])]"
    unfolding InflectionHighlight_groups [OF parses seeds] tokens
    by (simp add: first_normal_form_def toy_parse_def str_def)
  with tokens seeds show ?thesis by blast
qed

text \<open>
  Claim C4. When two seed words have the same lemma \<open>L\<close> (one among the seed words
  \<open>pre\<close>, and \<open>word\<close>, the last seed word with that lemma), the dict returned has exactly
  one entry for \<open>L\<close>, and its sequence is the one that the scan for \<open>word\<close> produced
  from the group it had emptied: each matching token's residual suffix once, whatever the
  earlier seed had put there.
\<close>

theorem duplicate_lemma_last_scan_survives:
  assumes parses: "\<forall>w \<in> set (words_of rt text). parse w \<noteq> []"
    and pre: "map (first_normal_form parse) pre = map Inr lems_pre"
    and word: "first_normal_form parse word = Inr L"
    and post: "map (first_normal_form parse) post = map Inr lems_post"
    and earlier: "L \<in> set lems_pre"
    and last: "L \<notin> set lems_post"
  shows "\<exists>d1 d2 d.
     each_selected parse (words_of rt text) [] pre = Inr d1 \<and>
     scan_words parse L (AList.update L [] d1) (words_of rt text) = Inr d2 \<and>
     InflectionHighlight_analyze rt parse text (pre @ word # post) = Inr d \<and>
     length (filter (\<lambda>kv. fst kv = L) d) = 1 \<and>
     map_of d L = map_of d2 L \<and>
     map_of d L =
       Some (map (drop (length L))
              (filter (\<lambda>w. first_normal_form parse w = Inr L) (words_of rt text)))"
proof -
  let ?ws = "words_of rt text"
  let ?R = "\<lambda>L. map (drop (length L)) (filter (\<lambda>w. first_normal_form parse w = Inr L) ?ws)"
  let ?d1 = "fold (\<lambda>L. AList.update L (?R L)) lems_pre []"
  let ?d2 = "AList.update L (?R L) ?d1"
  let ?d = "fold (\<lambda>L. AList.update L (?R L)) lems_post ?d2"
  have d1: "each_selected parse ?ws [] pre = Inr ?d1"
    by (rule each_selected_closed [OF parses pre])
  have "map_of (AList.update L [] ?d1) L = Some []"
    by (simp add: update_conv')
  from scan_words_closed [OF parses this]
  have d2: "scan_words parse L (AList.update L [] ?d1) ?ws = Inr ?d2"
    by simp
  have "each_selected parse ?ws ?d2 post = Inr ?d"
    by (rule each_selected_closed [OF parses post])
  with d1 d2 word have run: "each_selected parse ?ws [] (pre @ word # post) = Inr ?d"
    by (simp add: each_selected_append)
  then have d: "InflectionHighlight_analyze rt parse text (pre @ word # post) = Inr ?d"
    by (simp add: InflectionHighlight_analyze_def)
  from pre word post have all: "map (first_normal_form parse) (pre @ word # post) =
      map Inr (lems_pre @ L # lems_post)"
    by simp
  from inflection_groups_closed [OF parses all] d
  have closed: "?d = map (\<lambda>L. (L, ?R L)) (rev (remdups (rev (lems_pre @ L # lems_post))))"
    by simp
  have one: "length (filter (\<lambda>kv. fst kv = L) ?d) = 1"
    unfolding closed by (subst tabulate_one_entry) simp_all
  have same: "map_of ?d L = map_of ?d2 L"
    by (rule fold_update_other [OF last])
  have val: "map_of ?d2 L = Some (?R L)"
    by (simp add: update_conv')
  from d1 d2 d one same val show ?thesis
    by (intro exI [of _ ?d1] exI [of _ ?d2] exI [of _ ?d]) simp
qed

theorem duplicate_lemma_last_scan_survives_witness:
  "map (first_normal_form toy_parse) [str ''run''] = map Inr [str ''run''] \<and>
   first_normal_form toy_parse (str ''running'') = Inr (str ''run'') \<and>
   map (first_normal_form toy_parse) [str ''he''] = map Inr [str ''he''] \<and>
   InflectionHighlight_analyze ascii toy_parse (str ''he runs and ran'')
       [str ''run'', str ''running'', str ''he''] =
     Inr [(str ''run'', [str ''s'', str []]), (str ''he'', [str []])] \<and>
   (\<exists>d1 d2 d.
     each_selected toy_parse (words_of ascii (str ''he runs and ran'')) [] [str ''run''] = Inr d1 \<and>
     scan_words toy_parse (str ''run'') (AList.update (str ''run'') [] d1)
       (words_of ascii (str ''he runs and ran'')) = Inr d2 \<and>
     InflectionHighlight_analyze ascii toy_parse (str ''he runs and ran'')
       ([str ''run''] @ str ''running'' # [str ''he'']) = Inr d \<and>
     length (filter (\<lambda>kv. fst kv = str ''run'') d) = 1 \<and>
     map_of d (str ''run'') = map_of d2 (str ''run'') \<and>
     map_of d (str ''run'') =
       Some (map (drop (length (str ''run'')))
              (filter (\<lambda>w. first_normal_form toy_parse w = Inr (str ''run''))
                 (words_of ascii (str ''he runs and ran'')))))"
proof -
  have parses: "\<forall>w \<in> set (words_of ascii (str ''he runs and ran'')). toy_parse w \<noteq> []"
    by (simp add: toy_parse_def)
  have pre: "map (first_normal_form toy_parse) [str ''run''] = map Inr [str ''run'']"
    by (simp add: first_normal_form_def toy_parse_def)
  have word: "first_normal_form toy_parse (str ''running'') = Inr (str ''run'')"
    by (simp add: first_normal_form_def toy_parse_def)
  have post: "map (first_normal_form toy_parse) [str ''he''] = map Inr [str ''he'']"
    by (simp add: first_normal_form_def toy_parse_def str_def)
  have earlier: "str ''run'' \<in> set [str ''run'']"
    by simp
  have last: "str ''run'' \<notin> set [str ''he'']"
    by (simp add: str_def)
  have result: "InflectionHighlight_analyze ascii toy_parse (str ''he runs and ran'')
       [str ''run'', str ''running'', str ''he''] =
     Inr [(str ''run'', [str ''s'', str []]), (str ''he'', [str []])]"
    by (simp add: infl_eval)
  from pre word post result
    duplicate_lemma_last_scan_survives [OF parses pre word post earlier last]
  show ?thesis
    by blast
qed

text \<open>
  Claim C10. A token whose lemma is the lemma \<open>L\<close> of a seed word and that is not longer
  than \<open>L\<close> makes no error: its residual suffix is the empty string (the slice past the
  end of the token), the scan appends it to the group and goes on, and in the dict
  returned the group of \<open>L\<close> holds the empty string at the place of that token.
\<close>

theorem short_token_residual_is_empty:
  assumes parses: "\<forall>w \<in> set (words_of rt text). parse w \<noteq> []"
    and seeds: "map (first_normal_form parse) selected_words = map Inr lems"
    and seed: "L \<in> set lems"
    and token: "words_of rt text = pre @ w # post"
    and matched: "first_normal_form parse w = Inr L"
    and short: "length w \<le> length L"
  shows "drop (length L) w = [] \<and>
     (map_of d0 L = Some found \<longrightarrow>
        scan_words parse L d0 (w # ws) =
          scan_words parse L (AList.update L (found @ [[]]) d0) ws) \<and>
     (\<exists>d suffixes.
        InflectionHighlight_analyze rt parse text selected_words = Inr d \<and>
        map_of d L = Some suffixes \<and>
        length (filter (\<lambda>w. first_normal_form parse w = Inr L) pre) < length suffixes \<and>
        suffixes ! length (filter (\<lambda>w. first_normal_form parse w = Inr L) pre) = [])"
proof -
  let ?m = "\<lambda>w. first_normal_form parse w = Inr L"
  let ?R = "\<lambda>L. map (drop (length L))
              (filter (\<lambda>w. first_normal_form parse w = Inr L) (words_of rt text))"
  from short have slice: "drop (length L) w = []"
    by simp
  from matched slice have step: "map_of d0 L = Some found \<longrightarrow>
      scan_words parse L d0 (w # ws) = scan_words parse L (AList.update L (found @ [[]]) d0) ws"
    by simp
  have result: "InflectionHighlight_analyze rt parse text selected_words =
      Inr (map (\<lambda>L. (L, ?R L)) (rev (remdups (rev lems))))"
    by (rule inflection_groups_closed [OF parses seeds])
  from seed have entry: "map_of (map (\<lambda>L. (L, ?R L)) (rev (remdups (rev lems)))) L = Some (?R L)"
    by (simp add: map_of_tabulate)
  from token matched slice
  have split: "?R L = map (drop (length L)) (filter ?m pre) @ [] # map (drop (length L)) (filter ?m post)"
    by simp
  then have len: "length (filter ?m pre) < length (?R L)"
    by simp
  from split have "?R L ! length (map (drop (length L)) (filter ?m pre)) = []"
    by (simp only: nth_append_length)
  then have nth: "?R L ! length (filter ?m pre) = []"
    by simp
  from result entry len nth have "\<exists>d suffixes.
        InflectionHighlight_analyze rt parse text selected_words = Inr d \<and>
        map_of d L = Some suffixes \<and>
        length (filter ?m pre) < length suffixes \<and>
        suffixes ! length (filter ?m pre) = []"
    by blast
  with slice step show ?thesis
    by blast
qed

theorem short_token_residual_is_empty_witness:
  "map (first_normal_form toy_parse) [str ''mouse''] = map Inr [str ''mouse''] \<and>
   words_of ascii (str ''The mice ran'') = [str ''the''] @ str ''mice'' # [str ''ran''] \<and>
   first_normal_form toy_parse (str ''mice'') = Inr (str ''mouse'') \<and>
   length (str ''mice'') < length (str ''mouse'') \<and>
   drop (length (str ''mouse'')) (str ''mice'') = [] \<and>
   InflectionHighlight_analyze ascii toy_parse (str ''The mice ran'') [str ''mouse''] =
     Inr [(str ''mouse'', [str []])] \<and>
   scan_words toy_parse (str ''mouse'') [(str ''mouse'', [])] [str ''mice''] =
     Inr [(str ''mouse'', [str []])]"
proof -
  have parses: "\<forall>w \<in> set (words_of ascii (str ''The mice ran'')). toy_parse w \<noteq> []"
    by (simp add: toy_parse_def)
  have seeds: "map (first_normal_form toy_parse) [str ''mouse''] = map Inr [str ''mouse'']"
    by (simp add: first_normal_form_def toy_parse_def str_def)
  have seed: "str ''mouse'' \<in> set [str ''mouse'']"
    by simp
  have token: "words_of ascii (str ''The mice ran'') = [str ''the''] @ str ''mice'' # [str ''ran'']"
    by (simp add: tok_eval)
  have matched: "first_normal_form toy_parse (str ''mice'') = Inr (str ''mouse'')"
    by (simp add: first_normal_form_def toy_parse_def str_def)
  have short: "length (str ''mice'') \<le> length (str ''mouse'')"
    by (simp add: str_def)
  have shorter: "length (str ''mice'') < length (str ''mouse'')"
    by (simp add: str_def)
  have result: "InflectionHighlight_analyze ascii toy_parse (str ''The mice ran'') [str ''mouse''] =
     Inr [(str ''mouse'', [str []])]"
    by (simp add: infl_eval)
  have start: "map_of [(str ''mouse'', [])] (str ''mouse'') = Some []"
    by simp
  from short_token_residual_is_empty [OF parses seeds seed token matched short,
      of "[(str ''mouse'', [])]" "[]" "[]"] start
  have "drop (length (str ''mouse'')) (str ''mice'') = [] \<and>
      scan_words toy_parse (str ''mouse'') [(str ''mouse'', [])] [str ''mice''] =
        Inr [(str ''mouse'', [str []])]"
    by (simp add: str_def)
  with seeds token matched shorter result show ?thesis
    by blast
qed

text \<open>
  Claim C8. On the empty text (which the runtime lower-cases to the empty text) no
  strategy raises: the absolute and the relative frequency tables are empty, the sentence
  count and the count of unique words are 0, and the inflection strategy returns the dict
  with one empty group for each lemma of a seed word (the analyzer giving the seed words
  the normal forms \<open>lems\<close>).
\<close>

theorem empty_text_results:
  assumes lower: "str_lower rt [] = []"
    and seeds: "map (first_normal_form parse) selected_words = map Inr lems"
  shows "words_of rt [] = [] \<and>
     AbsoluteFrequency_analyze rt [] = [] \<and>
     RelativeFrequency_analyze rt [] = Inr [] \<and>
     SentenceCount_analyze [] = 0 \<and>
     UniqueWordsCount_analyze rt [] = 0 \<and>
     InflectionHighlight_analyze rt parse [] selected_words =
       Inr (map (\<lambda>L. (L, [])) (rev (remdups (rev lems))))"
proof -
  from lower have none: "words_of rt [] = []"
    by (simp add: words_of_def findall_words_def)
  then have absolute: "AbsoluteFrequency_analyze rt [] = []"
    by (simp add: AbsoluteFrequency_analyze_def Counter_def)
  from none have relative: "RelativeFrequency_analyze rt [] = Inr []"
    by (simp add: RelativeFrequency_analyze_def Counter_def)
  have sentences: "SentenceCount_analyze [] = 0"
    by (simp add: SentenceCount_analyze_def re_split_def strip_def)
  from none have unique: "UniqueWordsCount_analyze rt [] = 0"
    by (simp add: UniqueWordsCount_analyze_def)
  from none have "\<forall>w \<in> set (words_of rt []). parse w \<noteq> []"
    by simp
  from inflection_groups_closed [OF this seeds] none
  have inflections: "InflectionHighlight_analyze rt parse [] selected_words =
       Inr (map (\<lambda>L. (L, [])) (rev (remdups (rev lems))))"
    by simp
  from none absolute relative sentences unique inflections show ?thesis
    by blast
qed

theorem empty_text_results_witness:
  "str_lower ascii [] = [] \<and>
   map (first_normal_form toy_parse) [str ''run'', str ''mice'', str ''ran''] =
     map Inr [str ''run'', str ''mouse'', str ''run''] \<and>
   AbsoluteFrequency_analyze ascii [] = [] \<and>
   RelativeFrequency_analyze ascii [] = Inr [] \<and>
   SentenceCount_analyze [] = 0 \<and>
   UniqueWordsCount_analyze ascii [] = 0 \<and>
   InflectionHighlight_analyze ascii toy_parse [] [str ''run'', str ''mice'', str ''ran''] =
     Inr [(str ''run'', []), (str ''mouse'', [])]"
proof -
  have lower: "str_lower ascii [] = []"
    by (simp add: ascii_def ascii_lower_def)
  have seeds: "map (first_normal_form toy_parse) [str ''run'', str ''mice'', str ''ran''] =
     map Inr [str ''run'', str ''mouse'', str ''run'']"
    by (simp add: first_normal_form_def toy_parse_def str_def)
  have keys: "rev (remdups (rev [str ''run'', str ''mouse'', str ''run''])) = [str ''run'', str ''mouse'']"
    by (simp add: str_def)
  from lower seeds empty_text_results [OF lower seeds] show ?thesis
    unfolding keys by simp
qed

text \<open>
  Claim C9. Running the analyzer is the call of its strategy's \<^verbatim>\<open>analyze\<close> on the same
  text and extra arguments, with the result (or the error) handed back as it is, for the
  strategy given at construction and for one set later; with no extra argument the five
  strategies' results are those of their \<^verbatim>\<open>analyze\<close> methods, and with the seed words
  as the one extra argument the inflection strategy's.
\<close>

theorem TextAnalyzer_is_dispatch:
  "TextAnalyzer_analyze rt (TextAnalyzer_init strategy) text args =
     strategy_analyze rt strategy text args \<and>
   TextAnalyzer_analyze rt (set_strategy self strategy) text args =
     strategy_analyze rt strategy text args \<and>
   TextAnalyzer_analyze rt (TextAnalyzer_init AbsoluteFrequencyStrategy) text [] =
     Inr (Freq (AbsoluteFrequency_analyze rt text)) \<and>
   TextAnalyzer_analyze rt (TextAnalyzer_init RelativeFrequencyStrategy) text [] =
     map_sum id RelFreq (RelativeFrequency_analyze rt text) \<and>
   TextAnalyzer_analyze rt (TextAnalyzer_init SentenceCountStrategy) text [] =
     Inr (PyInt (SentenceCount_analyze text)) \<and>
   TextAnalyzer_analyze rt (TextAnalyzer_init UniqueWordsCountStrategy) text [] =
     Inr (PyInt (UniqueWordsCount_analyze rt text)) \<and>
   TextAnalyzer_analyze rt (TextAnalyzer_init (InflectionHighlightStrategy parse)) text
       [selected_words] =
     map_sum id Inflections (InflectionHighlight_analyze rt parse text selected_words)"
  by (simp add: TextAnalyzer_analyze_def TextAnalyzer_init_def set_strategy_def)

theorem TextAnalyzer_is_dispatch_witness:
  "TextAnalyzer_analyze ascii (TextAnalyzer_init SentenceCountStrategy)
     (str ''Hello. World! How?'') [] = Inr (PyInt 3) \<and>
   strategy_analyze ascii SentenceCountStrategy (str ''Hello. World! How?'') [] = Inr (PyInt 3) \<and>
   TextAnalyzer_analyze ascii
     (set_strategy (TextAnalyzer_init SentenceCountStrategy) UniqueWordsCountStrategy)
     (str ''a b a'') [] = Inr (PyInt 2) \<and>
   TextAnalyzer_analyze ascii (TextAnalyzer_init SentenceCountStrategy)
     (str ''Hello.'') [[str ''run'']] = Inl TypeError"
proof -
  have count: "strategy_analyze ascii SentenceCountStrategy (str ''Hello. World! How?'') [] =
      Inr (PyInt 3)"
    by (simp add: sc_eval)
  have unique: "strategy_analyze ascii UniqueWordsCountStrategy (str ''a b a'') [] = Inr (PyInt 2)"
    by (simp add: tok_eval UniqueWordsCount_analyze_def card_insert_if)
  have arity: "strategy_analyze ascii SentenceCountStrategy (str ''Hello.'') [[str ''run'']] =
      Inl TypeError"
    by simp
  from count unique arity
    TextAnalyzer_is_dispatch [of ascii SentenceCountStrategy "str ''Hello. World! How?'' " "[]"]
    TextAnalyzer_is_dispatch [of ascii UniqueWordsCountStrategy "str ''a b a''" "[]"
      "TextAnalyzer_init SentenceCountStrategy"]
    TextAnalyzer_is_dispatch [of ascii SentenceCountStrategy "str ''Hello.''" "[[str ''run'']]"]
  show ?thesis
    by simp
qed

section \<open>Properties of the relative frequency table\<close>

lemma percent_error:
  assumes c: "0 < c" "c \<le> t" and t: "t < 2 ^ 63"
  shows "truediv c t = Inr (round_double (of_nat c / of_nat t))"
    and "\<bar>float_mul (round_double (of_nat c / of_nat t)) 100 - 100 * (of_nat c / of_nat t)\<bar>
           \<le> 100 * (of_nat c / of_nat t) * ((1 + 1 / 2 ^ 53)\<^sup>2 - 1)"
proof -
  define x :: rat where "x = of_nat c / of_nat t"
  define q where "q = round_double x"
  define v where "v = round_double (q * 100)"
  from c have t_pos: "0 < t" by simp
  from c t_pos have x_le: "x \<le> 1" by (simp add: x_def)
  from t have "(of_nat t :: rat) < of_nat (2 ^ 63)" by (simp only: of_nat_less_iff)
  then have t_less: "(of_nat t :: rat) < 2 ^ 63" by simp
  from c have "Suc 0 \<le> c" by simp
  then have "(of_nat (Suc 0) :: rat) \<le> of_nat c" by (simp only: of_nat_le_iff)
  then have c_ge: "(1 :: rat) \<le> of_nat c" by simp
  have "1 / 2 ^ 63 \<le> 1 / (of_nat t :: rat)"
    using t_less t_pos by (simp add: field_simps)
  also have "\<dots> \<le> x"
    using c_ge t_pos by (simp add: x_def divide_right_mono)
  finally have x_ge: "1 / 2 ^ 63 \<le> x" .
  have tiny: "power_int 2 (- 1022) \<le> (1 / 2 ^ 63 :: rat)"
    by (simp add: power_int_minus_divide)
  from x_ge tiny have "power_int 2 (- 1022) \<le> x" by linarith
  from round_double_error [OF this] have e1: "\<bar>q - x\<bar> \<le> x / 2 ^ 53"
    by (simp add: q_def)
  from x_ge have x_pos: "0 < x" by (simp add: field_simps)
  from e1 have "q - x \<le> x / 2 ^ 53" and "- (q - x) \<le> x / 2 ^ 53"
    by (rule abs_le_D1, rule abs_le_D2)
  then have e1': "(q - x) * 2 ^ 53 \<le> x" "(x - q) * 2 ^ 53 \<le> x"
    by (simp_all add: pos_le_divide_eq)
  from e1' x_le x_pos have q_le: "q \<le> 2" and q_ge: "x / 2 \<le> q"
    by (simp; linarith)+
  have "(2 :: rat) \<le> max_double" by (simp add: max_double_def)
  with q_le have "\<not> max_double < q" by linarith
  with t_pos show "truediv c t = Inr (round_double (of_nat c / of_nat t))"
    by (simp add: truediv_def Let_def q_def x_def)
  from q_ge x_ge have "1 / 2 ^ 63 \<le> q * 100" by simp
  with tiny have "power_int 2 (- 1022) \<le> q * 100" by linarith
  from round_double_error [OF this] have e2: "\<bar>v - q * 100\<bar> \<le> q * 100 / 2 ^ 53"
    by (simp add: v_def)
  from e2 have "v - q * 100 \<le> q * 100 / 2 ^ 53" and "- (v - q * 100) \<le> q * 100 / 2 ^ 53"
    by (rule abs_le_D1, rule abs_le_D2)
  then have e2': "(v - q * 100) * 2 ^ 53 \<le> q * 100" "(q * 100 - v) * 2 ^ 53 \<le> q * 100"
    by (simp_all add: pos_le_divide_eq)
  have up: "(v - 100 * x) * 2 ^ 106 \<le> 100 * x * (2 * 2 ^ 53 + 1)"
    using e1' e2' by (simp; linarith)
  have down: "(100 * x - v) * 2 ^ 106 \<le> 100 * x * (2 * 2 ^ 53 + 1)"
    using e1' e2' by (simp; linarith)
  have tol: "100 * x * ((1 + 1 / 2 ^ 53)\<^sup>2 - 1) = 100 * x * (2 * 2 ^ 53 + 1) / 2 ^ 106"
    by (simp add: power2_eq_square field_simps)
  from up have "v - 100 * x \<le> 100 * x * (2 * 2 ^ 53 + 1) / 2 ^ 106"
    by (simp only: pos_le_divide_eq zero_less_power zero_less_numeral)
  moreover from down have "- (v - 100 * x) \<le> 100 * x * (2 * 2 ^ 53 + 1) / 2 ^ 106"
    by (simp only: pos_le_divide_eq zero_less_power zero_less_numeral minus_diff_eq)
  ultimately have "\<bar>v - 100 * x\<bar> \<le> 100 * x * ((1 + 1 / 2 ^ 53)\<^sup>2 - 1)"
    unfolding tol by (rule abs_leI)
  then show "\<bar>float_mul (round_double (of_nat c / of_nat t)) 100 - 100 * (of_nat c / of_nat t)\<bar>
           \<le> 100 * (of_nat c / of_nat t) * ((1 + 1 / 2 ^ 53)\<^sup>2 - 1)"
    by (simp add: float_mul_def v_def q_def x_def)
qed

lemma update_bump_positive:
  "\<forall>kv \<in> set m. 0 < snd kv \<Longrightarrow>
     \<forall>kv \<in> set (AList.update k ((case map_of m k of None \<Rightarrow> 0 | Some n \<Rightarrow> n) + 1) m).
        (0::nat) < snd kv"
  by (induction m) auto

lemma count_elements_positive:
  "\<forall>kv \<in> set m. 0 < snd kv \<Longrightarrow> \<forall>kv \<in> set (count_elements m es). 0 < snd kv"
proof (induction es arbitrary: m)
  case Nil
  then show ?case by simp
next
  case (Cons e es)
  from update_bump_positive [OF Cons.prems] show ?case
    by (simp only: count_elements.simps) (rule Cons.IH)
qed

lemma Counter_counts:
  assumes "(w, c) \<in> set (Counter ws)"
  shows "0 < c" and "c \<le> length ws"
proof -
  from assms count_elements_positive [of "[]" ws] show "0 < c"
    by (auto simp: Counter_def)
  from assms have "c \<in> set (map snd (Counter ws))" by force
  then have "c \<le> sum_list (map snd (Counter ws))" by (rule member_le_sum_list) simp
  then show "c \<le> length ws" by (simp add: Counter_sum)
qed

lemma rel_freq_items_closed:
  "distinct (map fst items) \<Longrightarrow> fst ` set items \<inter> fst ` set d = {} \<Longrightarrow>
   \<forall>(w, c) \<in> set items. 0 < c \<and> c \<le> tw \<Longrightarrow> tw < 2 ^ 63 \<Longrightarrow>
     rel_freq_items tw d items =
       Inr (d @ map (\<lambda>(w, c). (w, float_mul (round_double (of_nat c / of_nat tw)) 100)) items)"
proof (induction items arbitrary: d)
  case Nil
  show ?case by simp
next
  case (Cons item items)
  obtain w c where item: "item = (w, c)" by (cases item)
  from Cons.prems item have fresh: "w \<notin> fst ` set d" by auto
  from Cons.prems item have c: "0 < c" "c \<le> tw" by auto
  from percent_error(1) [OF c Cons.prems(4)]
  have quotient: "truediv c tw = Inr (round_double (of_nat c / of_nat tw))" .
  let ?d = "d @ [(w, float_mul (round_double (of_nat c / of_nat tw)) 100)]"
  from Cons.prems item have "distinct (map fst items)" and "fst ` set items \<inter> fst ` set ?d = {}"
    and "\<forall>(w, c) \<in> set items. 0 < c \<and> c \<le> tw"
    by auto
  from Cons.IH [OF this Cons.prems(4)] fresh item quotient show ?case
    by (simp add: update_absent)
qed

lemma percent_sum_exact:
  "sum_list (map (\<lambda>(w, c). 100 * (of_nat c / (t::rat))) items) =
     100 * (of_nat (sum_list (map snd items)) / t)"
  by (induction items) (auto simp: add_divide_distrib distrib_left)

lemma percent_sum_error:
  "\<forall>(w, c) \<in> set items. 0 < c \<and> c \<le> tw \<Longrightarrow> tw < 2 ^ 63 \<Longrightarrow>
   \<bar>sum_list (map snd (map (\<lambda>(w, c). (w, float_mul (round_double (of_nat c / of_nat tw)) 100)) items))
      - sum_list (map (\<lambda>(w, c). 100 * (of_nat c / of_nat tw)) items)\<bar>
   \<le> sum_list (map (\<lambda>(w, c). 100 * (of_nat c / of_nat tw)) items) * ((1 + 1 / 2 ^ 53)\<^sup>2 - 1)"
proof (induction items)
  case Nil
  show ?case by simp
next
  case (Cons item items)
  obtain w c where item: "item = (w, c)" by (cases item)
  from Cons.prems item have c: "0 < c" "c \<le> tw" by auto
  from Cons.prems have "\<forall>(w, c) \<in> set items. 0 < c \<and> c \<le> tw" by simp
  from Cons.IH [OF this Cons.prems(2)] percent_error(2) [OF c Cons.prems(2)] item
  show ?case
    by (simp add: distrib_right)
qed

lemma truediv_2_3: "truediv 2 3 = Inr (6004799503160661 / 9007199254740992)"
  by code_simp

lemma truediv_1_3: "truediv 1 3 = Inr (6004799503160661 / 18014398509481984)"
  by code_simp

lemma float_mul_2_3: "float_mul (6004799503160661 / 9007199254740992) 100 = 2345624805922133 / 35184372088832"
  by code_simp

lemma float_mul_1_3: "float_mul (6004799503160661 / 18014398509481984) 100 = 2345624805922133 / 70368744177664"
  by code_simp

lemma aba_table: "RelativeFrequency_analyze ascii (str ''a b a'') =
   Inr [(str ''a'', 2345624805922133 / 35184372088832), (str ''b'', 2345624805922133 / 70368744177664)]"
  using truediv_2_3 truediv_1_3
  by (simp add: tok_eval RelativeFrequency_analyze_def Counter_def float_mul_2_3 float_mul_1_3
      numeral_2_eq_2 numeral_3_eq_3)

text \<open>
  Claim C6. For every text with at least one token (and fewer than \<open>2 ^ 63\<close>, the bound
  of a list's length), the relative frequency strategy returns a table (no error) with
  one percentage for each distinct token, the double that the division and the
  multiplication by 100 give. The exact percentages of the counts add up to 100, and
  the doubles of the table add up to 100 within the floating-point tolerance
  \<open>100 * ((1 + 2 ^ -53) ^ 2 - 1)\<close>, which is less than \<open>2.3 * 10 ^ -14\<close>.
\<close>

theorem RelativeFrequency_sums_to_100:
  assumes some: "words_of rt text \<noteq> []"
    and size: "length (words_of rt text) < 2 ^ 63"
  shows "\<exists>rel_freq.
     RelativeFrequency_analyze rt text = Inr rel_freq \<and>
     rel_freq =
       map (\<lambda>(w, c). (w, float_mul (round_double (of_nat c / of_nat (length (words_of rt text)))) 100))
         (Counter (words_of rt text)) \<and>
     sum_list (map (\<lambda>(w, c). 100 * (of_nat c / of_nat (length (words_of rt text))))
        (Counter (words_of rt text))) = (100 :: rat) \<and>
     \<bar>sum_list (map snd rel_freq) - 100\<bar> \<le> 100 * ((1 + 1 / 2 ^ 53)\<^sup>2 - 1)"
proof -
  let ?ws = "words_of rt text"
  let ?t = "length ?ws"
  let ?table = "map (\<lambda>(w, c). (w, float_mul (round_double (of_nat c / of_nat ?t)) 100)) (Counter ?ws)"
  let ?exact = "sum_list (map (\<lambda>(w, c). 100 * (of_nat c / (of_nat ?t :: rat))) (Counter ?ws))"
  have counts: "\<forall>(w, c) \<in> set (Counter ?ws). 0 < c \<and> c \<le> ?t"
    by (auto dest: Counter_counts)
  have "rel_freq_items ?t [] (Counter ?ws) = Inr ([] @ ?table)"
    by (rule rel_freq_items_closed [OF _ _ counts size]) (simp_all add: Counter_distinct)
  then have result: "RelativeFrequency_analyze rt text = Inr ?table"
    by (simp add: RelativeFrequency_analyze_def Let_def)
  from some have exact: "?exact = 100"
    by (simp only: percent_sum_exact Counter_sum) simp
  from percent_sum_error [OF counts size]
  have "\<bar>sum_list (map snd ?table) - ?exact\<bar> \<le> ?exact * ((1 + 1 / 2 ^ 53)\<^sup>2 - 1)" .
  then have close: "\<bar>sum_list (map snd ?table) - 100\<bar> \<le> 100 * ((1 + 1 / 2 ^ 53)\<^sup>2 - 1)"
    by (simp only: exact)
  from result exact close show ?thesis
    by blast
qed

theorem RelativeFrequency_sums_to_100_witness:
  "words_of ascii (str ''a b a'') = [str ''a'', str ''b'', str ''a''] \<and>
   RelativeFrequency_analyze ascii (str ''a b a'') =
     Inr [(str ''a'', 2345624805922133 / 35184372088832),
          (str ''b'', 2345624805922133 / 70368744177664)] \<and>
   sum_list (map snd [(str ''a'', 2345624805922133 / 35184372088832 :: rat),
                      (str ''b'', 2345624805922133 / 70368744177664)]) = 100 - 1 / 2 ^ 46 \<and>
   (\<exists>rel_freq.
     RelativeFrequency_analyze ascii (str ''a b a'') = Inr rel_freq \<and>
     \<bar>sum_list (map snd rel_freq) - 100\<bar> \<le> 100 * ((1 + 1 / 2 ^ 53)\<^sup>2 - 1))"
proof -
  have tokens: "words_of ascii (str ''a b a'') = [str ''a'', str ''b'', str ''a'']"
    by (simp add: tok_eval)
  then have some: "words_of ascii (str ''a b a'') \<noteq> []"
    by simp
  from tokens have size: "length (words_of ascii (str ''a b a'')) < 2 ^ 63"
    by simp
  have total: "sum_list (map snd [(str ''a'', 2345624805922133 / 35184372088832 :: rat),
                      (str ''b'', 2345624805922133 / 70368744177664)]) = 100 - 1 / 2 ^ 46"
    by simp
  from tokens aba_table total RelativeFrequency_sums_to_100 [OF some size] show ?thesis
    by blast
qed

section \<open>The case of the seed words\<close>




end
